theory Spec2Isabelle
  imports Main "HOL-Library.Char_ord" "HOL-Library.List_Lexorder"
begin

section \<open>Data model of lib/core/EdisonMDNS.js\<close>

text \<open>
  JavaScript strings are modelled as \<^typ>\<open>string\<close>. Service names are arbitrary strings:
  they come from the network. Addresses are what the resolver sequence of lines 51-55
  (\<^verbatim>\<open>getaddrinfo\<close> with \<^verbatim>\<open>families: [4]\<close>) yields, dotted IPv4 strings (ASCII); on them
  the order of \<^typ>\<open>string\<close> (lexicographic on character codes) is the order of the default
  \<^verbatim>\<open>Array.prototype.sort\<close>, and none of them is the name of a built-in property.

  A JavaScript object used as a dictionary whose values are all \<^verbatim>\<open>true\<close> is modelled
  by the list of its enumerable own keys, without duplicates, in the order of insertion.
  Every use of \<^verbatim>\<open>Object.keys\<close> in the module either sorts the keys afterwards or asks
  whether some key has a property, so the order of enumeration is never observed.
  Output on the console is not modelled.
\<close>

type_synonym key_set = "string list"

definition set_key :: "string \<Rightarrow> key_set \<Rightarrow> key_set" where
  "set_key k ks = (if k \<in> set ks then ks else ks @ [k])"

text \<open>\<^verbatim>\<open>exports.LOCAL_ADDR\<close>.\<close>

definition LOCAL_ADDR :: string where
  "LOCAL_ADDR = ''127.0.0.1''"

text \<open>
  The raw record delivered by the mDNS engine. A field that may be \<^verbatim>\<open>undefined\<close> is an
  option. Ports are numbers; property values are strings.
\<close>

record raw_service =
  name :: "string option"
  type :: "string option"
  port :: "int option"
  addresses :: "string list option"
  properties :: "(string \<times> string) list option"

text \<open>
  Errors are values. \<open>InvalidArgument\<close> is the \<^verbatim>\<open>Error\<close> thrown on line 102,
  \<open>TypeError\<close> is what the language throws (reading a property of \<^verbatim>\<open>undefined\<close> or
  \<^verbatim>\<open>null\<close>, assigning to a property of a primitive in strict mode), \<open>EngineError\<close> is
  whatever the mDNS engine throws, and \<open>Thrown\<close> is whatever the application's functions
  throw.
\<close>

datatype error = InvalidArgument | TypeError | EngineError string | Thrown string

text \<open>
  \<^verbatim>\<open>exports.serviceCache\<close> is a plain object, read and written with \<^verbatim>\<open>[name]\<close>, so a
  read also finds what the object inherits from \<^verbatim>\<open>Object.prototype\<close>. The state maps a
  name to the enumerable own keys of the object that \<^verbatim>\<open>exports.serviceCache[name]\<close> is:
  \<^item> for the name \<^verbatim>\<open>__proto__\<close>, that object is \<^verbatim>\<open>Object.prototype\<close> itself, and the keys
    are those the module has added to it (\<open>prototype_keys\<close>), each with the value
    \<^verbatim>\<open>true\<close>; every object inherits them;
  \<^item> for the name of a built-in member of \<^verbatim>\<open>Object.prototype\<close> (\<open>prototype_members\<close>),
    that object is the built-in function, and the keys are those the module has added
    to it;
  \<^item> for any other name, that object is the own property of the cache of that name, if
    there is one.
  \<open>Map.empty\<close> is the state in which the module is loaded.
\<close>

type_synonym service_cache = "string \<rightharpoonup> key_set"

definition cached :: "service_cache \<Rightarrow> string \<Rightarrow> key_set" where
  "cached serviceCache nm = (case serviceCache nm of None \<Rightarrow> [] | Some ks \<Rightarrow> ks)"

definition prototype_keys :: "service_cache \<Rightarrow> key_set" where
  "prototype_keys serviceCache = cached serviceCache ''__proto__''"

definition prototype_members :: "string list" where
  "prototype_members =
     [''constructor'', ''toString'', ''toLocaleString'', ''valueOf'', ''hasOwnProperty'',
      ''isPrototypeOf'', ''propertyIsEnumerable'', ''__defineGetter__'', ''__defineSetter__'',
      ''__lookupGetter__'', ''__lookupSetter__'']"

text \<open>
  What \<^verbatim>\<open>exports.serviceCache[service.name]\<close> evaluates to (lines 299, 302, 303 and
  312): \<^verbatim>\<open>undefined\<close>; an object, given by its enumerable own keys; or the value
  \<^verbatim>\<open>true\<close>, inherited, when the name is a key that was added to \<^verbatim>\<open>Object.prototype\<close> and
  the cache has no own property of that name.
\<close>

datatype cache_entry = Missing | Keys key_set | Inherited_true

definition lookup_entry :: "service_cache \<Rightarrow> string \<Rightarrow> cache_entry" where
  "lookup_entry serviceCache nm =
     (if nm = ''__proto__'' \<or> nm \<in> set prototype_members then Keys (cached serviceCache nm)
      else (case serviceCache nm of
              Some ks \<Rightarrow> Keys ks
            | None \<Rightarrow>
                if nm \<in> set (prototype_keys serviceCache) then Inherited_true else Missing))"

text \<open>
  The test of line 302, \<^verbatim>\<open>exports.serviceCache[service.name][address]\<close> being truthy,
  for an entry that is not \<^verbatim>\<open>undefined\<close>: the address is an own key of the entry or a
  key added to \<^verbatim>\<open>Object.prototype\<close>, which the entry inherits (also when the entry is
  the inherited \<^verbatim>\<open>true\<close>, whose own keys are none).
\<close>

definition seen :: "service_cache \<Rightarrow> string \<Rightarrow> string \<Rightarrow> bool" where
  "seen serviceCache nm address \<longleftrightarrow>
     address \<in> set (cached serviceCache nm) \<or> address \<in> set (prototype_keys serviceCache)"

section \<open>Local service detection\<close>

text \<open>
  \<^verbatim>\<open>serviceIsLocal(serviceAddresses)\<close>, lines 205-227; \<^verbatim>\<open>exports.myaddresses\<close> is passed
  as the first argument.
\<close>

definition serviceIsLocal :: "string list \<Rightarrow> string list \<Rightarrow> bool" where
  "serviceIsLocal myaddresses serviceAddresses =
     (if serviceAddresses = [] then False
      else list_ex (\<lambda>serviceAddress.
             list_ex (\<lambda>myaddress. serviceAddress = myaddress) myaddresses)
           serviceAddresses)"

section \<open>Address ranking\<close>

text \<open>\<^verbatim>\<open>getMatchingPrefixLen\<close>, lines 235-243: the while loop on the index \<open>i\<close>.\<close>

function prefix_loop :: "string \<Rightarrow> string \<Rightarrow> nat \<Rightarrow> nat" where
  "prefix_loop serviceAddress myaddress i =
     (if i < length serviceAddress \<and> i < length myaddress
         \<and> serviceAddress ! i = myaddress ! i
      then prefix_loop serviceAddress myaddress (Suc i)
      else i)"
  by pat_completeness auto
termination
  by (relation "measure (\<lambda>(s, m, i). length s - i)") auto

declare prefix_loop.simps [simp del]

definition getMatchingPrefixLen :: "string \<Rightarrow> string \<Rightarrow> nat" where
  "getMatchingPrefixLen serviceAddress myaddress = prefix_loop serviceAddress myaddress 0"

text \<open>
  \<^verbatim>\<open>resultStore\<close>: prefix length to the set of addresses that reached it. The assignment
  \<^verbatim>\<open>resultStore[matchingPrefixLen][serviceAddress] = true\<close>, creating the inner object
  when it is missing, is \<open>store_add\<close>.
\<close>

type_synonym result_store = "(nat \<times> key_set) list"

fun store_add :: "nat \<Rightarrow> string \<Rightarrow> result_store \<Rightarrow> result_store" where
  "store_add n a [] = [(n, [a])]"
| "store_add n a ((m, ks) # rs) =
     (if m = n then (m, set_key a ks) # rs else (m, ks) # store_add n a rs)"

text \<open>
  \<^verbatim>\<open>getAddressesWithLongestPrefixMatch\<close>, lines 251-275. The two nested \<^verbatim>\<open>forEach\<close>
  loops are two nested folds; the numeric sort followed by taking the last element
  selects the greatest prefix length. The lookup of that length always succeeds, as it
  is one of the keys of the store.
\<close>

definition fill_store :: "string list \<Rightarrow> string list \<Rightarrow> result_store" where
  "fill_store myaddresses serviceAddresses =
     fold (\<lambda>serviceAddress.
            fold (\<lambda>myaddress.
                   store_add (getMatchingPrefixLen serviceAddress myaddress) serviceAddress)
                 myaddresses)
          serviceAddresses []"

definition getAddressesWithLongestPrefixMatch :: "string list \<Rightarrow> string list \<Rightarrow> string list" where
  "getAddressesWithLongestPrefixMatch myaddresses serviceAddresses =
     (let resultStore = fill_store myaddresses serviceAddresses;
          allPrefixLengths = map fst resultStore
      in if allPrefixLengths = [] then []
         else (case map_of resultStore (last (sort allPrefixLengths)) of
                 Some ks \<Rightarrow> ks
               | None \<Rightarrow> []))"

text \<open>
  The ranking step of \<^verbatim>\<open>serviceAddressFilter\<close>, lines 320-323: the addresses with the
  longest prefix match, sorted by the default (string) order. The candidates come first
  and the local addresses second, as in the specification's \<^verbatim>\<open>rank\<close>.
\<close>

definition rank :: "string list \<Rightarrow> string list \<Rightarrow> string list" where
  "rank candidateAddresses localAddresses =
     sort (getAddressesWithLongestPrefixMatch localAddresses candidateAddresses)"

section \<open>Address admission\<close>

text \<open>
  The body of the \<^verbatim>\<open>forEach\<close> in \<^verbatim>\<open>serviceAddressFilter\<close>, lines 298-305, for one
  address. Lines 299-301 create the entry of the name when the read gives
  \<^verbatim>\<open>undefined\<close>. Line 302 tests the address. Lines 303-304 store an address that is not
  seen and report it as new; when the entry is the inherited \<^verbatim>\<open>true\<close>, the assignment of
  line 303 is to a property of a primitive, which in strict mode throws a
  \<^verbatim>\<open>TypeError\<close>.
\<close>

definition note_address ::
  "string \<Rightarrow> string \<Rightarrow> service_cache \<Rightarrow> service_cache \<times> (error + bool)" where
  "note_address nm address serviceCache =
     (let serviceCache1 =
            (case lookup_entry serviceCache nm of
               Missing \<Rightarrow> serviceCache(nm \<mapsto> [])
             | _ \<Rightarrow> serviceCache)
      in if seen serviceCache1 nm address then (serviceCache1, Inr False)
         else (case lookup_entry serviceCache1 nm of
                 Inherited_true \<Rightarrow> (serviceCache1, Inl TypeError)
               | _ \<Rightarrow>
                   (serviceCache1(nm \<mapsto> cached serviceCache1 nm @ [address]), Inr True)))"

text \<open>
  The \<^verbatim>\<open>forEach\<close> loop of lines 297-306 over the addresses of the event, from a cache
  and the list \<^verbatim>\<open>notSeenBefore\<close> built so far. An exception ends the loop.
\<close>

fun note_addresses ::
  "string \<Rightarrow> string list \<Rightarrow> service_cache \<Rightarrow> string list
     \<Rightarrow> service_cache \<times> (error + string list)" where
  "note_addresses nm [] serviceCache notSeenBefore = (serviceCache, Inr notSeenBefore)"
| "note_addresses nm (address # rest) serviceCache notSeenBefore =
     (case note_address nm address serviceCache of
        (serviceCache', Inl err) \<Rightarrow> (serviceCache', Inl err)
      | (serviceCache', Inr new) \<Rightarrow>
          note_addresses nm rest serviceCache'
            (if new then notSeenBefore @ [address] else notSeenBefore))"

text \<open>
  \<^verbatim>\<open>serviceAddressFilter(service)\<close>, lines 284-324. It returns the admitted addresses, or
  the error it throws, and the cache it leaves behind. \<^verbatim>\<open>!service.name\<close> holds for a
  missing and for an empty name; \<^verbatim>\<open>!service.addresses\<close> holds for a missing list only
  (an empty array is truthy). On line 312 the list \<^verbatim>\<open>notSeenBefore\<close> is not empty, so an
  address was stored and the entry of the name is an object.
\<close>

definition serviceAddressFilter ::
  "string list \<Rightarrow> service_cache \<Rightarrow> raw_service \<Rightarrow> (error + string list) \<times> service_cache" where
  "serviceAddressFilter myaddresses serviceCache service =
     (case addresses service of
        None \<Rightarrow> (Inr [], serviceCache)
      | Some addrs \<Rightarrow>
          (case name service of
             None \<Rightarrow> (Inr [], serviceCache)
           | Some nm \<Rightarrow>
               if nm = [] then (Inr [], serviceCache)
               else
                 (case note_addresses nm addrs serviceCache [] of
                    (serviceCache', Inl err) \<Rightarrow> (Inl err, serviceCache')
                  | (serviceCache', Inr notSeenBefore) \<Rightarrow>
                      if length notSeenBefore = 0 then (Inr [], serviceCache')
                      else if serviceIsLocal myaddresses (cached serviceCache' nm)
                        then (Inr [LOCAL_ADDR], serviceCache')
                      else if length notSeenBefore = 1
                        then (Inr [notSeenBefore ! 0], serviceCache')
                      else (Inr (rank notSeenBefore myaddresses), serviceCache'))))"

text \<open>The list a run of the pipeline returned; none when it threw.\<close>

definition admitted_list :: "error + string list \<Rightarrow> string list" where
  "admitted_list result = (case result of Inl err \<Rightarrow> [] | Inr addrs \<Rightarrow> addrs)"

text \<open>
  \<^verbatim>\<open>removeServiceFromCache(service)\<close>, lines 190-198. \<^verbatim>\<open>delete\<close> removes an own property
  of the cache; \<^verbatim>\<open>Object.prototype\<close> and its built-in members are not own properties of
  the cache, and keep the keys added to them.
\<close>

definition removeServiceFromCache :: "raw_service \<Rightarrow> service_cache \<Rightarrow> service_cache" where
  "removeServiceFromCache service serviceCache =
     (case name service of
        None \<Rightarrow> serviceCache
      | Some nm \<Rightarrow>
          if nm = [] then serviceCache
          else if nm = ''__proto__'' \<or> nm \<in> set prototype_members then serviceCache
          else serviceCache(nm := None))"

section \<open>Query matching\<close>

text \<open>
  The query object. The class \<^verbatim>\<open>ServiceQuery\<close> is not among the sources; the record has
  the fields \<^verbatim>\<open>serviceQueryFilter\<close> reads: \<^verbatim>\<open>query.nameRegEx\<close> (a regular expression,
  taken as the predicate its \<^verbatim>\<open>test\<close> method computes), \<^verbatim>\<open>query.rawQuery\<close> with its
  \<^verbatim>\<open>type\<close>, \<^verbatim>\<open>port\<close> and \<^verbatim>\<open>properties\<close>, and \<^verbatim>\<open>query.properties\<close>, which line 368
  reads from the query object itself and not from \<^verbatim>\<open>query.rawQuery\<close>.
\<close>

record raw_query =
  q_type :: string
  q_port :: "int option"
  q_properties :: "(string \<times> string) list option"

record service_query =
  nameRegEx :: "(string \<Rightarrow> bool) option"
  rawQuery :: raw_query
  query_properties :: "(string \<times> string) list option"

text \<open>Lines 335-341: a pattern is set, the record has a non-empty name, and it matches.\<close>

definition name_matches :: "service_query \<Rightarrow> raw_service \<Rightarrow> bool" where
  "name_matches query serviceRecord =
     (case nameRegEx query of
        None \<Rightarrow> False
      | Some re \<Rightarrow>
          (case name serviceRecord of
             None \<Rightarrow> False
           | Some nm \<Rightarrow> nm \<noteq> [] \<and> re nm))"

text \<open>Lines 343-349: both ports are truthy (set and not zero) and equal.\<close>

definition port_matches :: "service_query \<Rightarrow> raw_service \<Rightarrow> bool" where
  "port_matches query serviceRecord =
     (case q_port (rawQuery query) of
        None \<Rightarrow> False
      | Some qp \<Rightarrow>
          qp \<noteq> 0 \<and>
          (case port serviceRecord of
             None \<Rightarrow> False
           | Some p \<Rightarrow> p \<noteq> 0 \<and> qp = p))"

text \<open>
  Lines 351-365: some key of the query's properties has, in the record, a truthy
  (non-empty) value that is identical to the query's value.
\<close>

definition property_matches :: "service_query \<Rightarrow> raw_service \<Rightarrow> bool" where
  "property_matches query serviceRecord =
     (case q_properties (rawQuery query) of
        None \<Rightarrow> False
      | Some qprops \<Rightarrow>
          (case properties serviceRecord of
             None \<Rightarrow> False
           | Some sprops \<Rightarrow>
               list_ex (\<lambda>property.
                   case map_of sprops property of
                     None \<Rightarrow> False
                   | Some v \<Rightarrow> v \<noteq> [] \<and> Some v = map_of qprops property)
                 (map fst qprops)))"

text \<open>\<^verbatim>\<open>serviceQueryFilter(query, serviceRecord)\<close>, lines 332-376.\<close>

definition serviceQueryFilter :: "service_query \<Rightarrow> raw_service \<Rightarrow> bool" where
  "serviceQueryFilter query serviceRecord =
     (if name_matches query serviceRecord then True
      else if port_matches query serviceRecord then True
      else if property_matches query serviceRecord then True
      else if nameRegEx query = None
              \<and> (case q_port (rawQuery query) of None \<Rightarrow> True | Some qp \<Rightarrow> qp = 0)
              \<and> query_properties query = None
        then True
      else False)"

text \<open>
  A field of the query counts as specified when the test that guards it in
  \<^verbatim>\<open>serviceQueryFilter\<close> (lines 335, 343 and 351) passes.
\<close>

definition name_specified :: "service_query \<Rightarrow> bool" where
  "name_specified query = (nameRegEx query \<noteq> None)"

definition port_specified :: "service_query \<Rightarrow> bool" where
  "port_specified query =
     (case q_port (rawQuery query) of None \<Rightarrow> False | Some qp \<Rightarrow> qp \<noteq> 0)"

definition properties_specified :: "service_query \<Rightarrow> bool" where
  "properties_specified query = (q_properties (rawQuery query) \<noteq> None)"

section \<open>Discovery events\<close>

text \<open>
  Modelled from the spec: the class \<^verbatim>\<open>ServiceRecord\<close> (lib/core/ServiceRecord.js) is not
  among the sources. Following the data model of the specification, a service record
  keeps the raw record and the two derived fields, \<^verbatim>\<open>suggestedAddresses\<close> and
  \<^verbatim>\<open>suggestedAddress\<close>; the condensed descriptor handed to the application has the
  name, type, port and properties of the raw record and the suggested address.
\<close>

record service_record =
  rawRecord :: raw_service
  suggestedAddresses :: "string list"
  suggestedAddress :: "string option"

record service_spec =
  spec_name :: "string option"
  spec_type :: "string option"
  spec_port :: "int option"
  spec_address :: "string option"
  spec_properties :: "(string \<times> string) list option"

text \<open>
  Modelled from the spec: \<^verbatim>\<open>ServiceRecord.initFromRawServiceRecord\<close>, not among the
  sources; it keeps the raw record, with no suggestion yet.
\<close>

definition initFromRawServiceRecord :: "raw_service \<Rightarrow> service_record" where
  "initFromRawServiceRecord service =
     \<lparr>rawRecord = service, suggestedAddresses = [], suggestedAddress = None\<rparr>"

text \<open>
  Modelled from the spec: \<^verbatim>\<open>ServiceRecord.setSuggestedAddresses\<close>, not among the
  sources; it sets the derived field \<^verbatim>\<open>suggestedAddresses\<close>.
\<close>

definition setSuggestedAddresses :: "string list \<Rightarrow> service_record \<Rightarrow> service_record" where
  "setSuggestedAddresses addrs serviceRecord = serviceRecord\<lparr>suggestedAddresses := addrs\<rparr>"

text \<open>
  Modelled from the spec: \<^verbatim>\<open>ServiceRecord.setSuggestedAddress\<close>, not among the sources;
  it sets the derived field \<^verbatim>\<open>suggestedAddress\<close>.
\<close>

definition setSuggestedAddress :: "string \<Rightarrow> service_record \<Rightarrow> service_record" where
  "setSuggestedAddress addr serviceRecord = serviceRecord\<lparr>suggestedAddress := Some addr\<rparr>"

text \<open>
  Modelled from the spec: \<^verbatim>\<open>ServiceRecord.getSuggestedServiceSpec\<close>, not among the
  sources; the condensed descriptor of the record, at its suggested address.
\<close>

definition getSuggestedServiceSpec :: "service_record \<Rightarrow> service_spec" where
  "getSuggestedServiceSpec serviceRecord =
     \<lparr>spec_name = name (rawRecord serviceRecord),
      spec_type = type (rawRecord serviceRecord),
      spec_port = port (rawRecord serviceRecord),
      spec_address = suggestedAddress serviceRecord,
      spec_properties = properties (rawRecord serviceRecord)\<rparr>"

text \<open>
  Lines 120-123 of the \<^verbatim>\<open>serviceUp\<close> handler: the service record built from the raw
  record and the admitted addresses, the first of which becomes the suggested address.
  The handler builds it for a non-empty list only.
\<close>

definition suggested_record :: "raw_service \<Rightarrow> string list \<Rightarrow> service_record" where
  "suggested_record service filteredServiceAddresses =
     setSuggestedAddress (filteredServiceAddresses ! 0)
       (setSuggestedAddresses filteredServiceAddresses (initFromRawServiceRecord service))"

text \<open>A handler either returns or lets an error escape to the engine that called it.\<close>

datatype outcome = Returned | Escaped error

text \<open>
  The application's functions. The user filter returns a (truthy or falsy) value or
  throws; it may be absent. The callback returns, \<open>None\<close>, or throws, \<open>Some err\<close>.
\<close>

type_synonym user_filter = "service_record \<Rightarrow> error + bool"

type_synonym app_callback = "service_spec \<Rightarrow> error option"

text \<open>
  The \<^verbatim>\<open>serviceUp\<close> handler registered by \<^verbatim>\<open>discoverServices\<close>, lines 111-133. Its
  result is the cache it leaves, the descriptors with which it called the callback, and
  how it ended. The calls of \<^verbatim>\<open>serviceAddressFilter\<close> and of the user filter are outside
  the \<^verbatim>\<open>try\<close> block, so what they throw escapes; what the callback throws is caught by
  \<^verbatim>\<open>catch (err) { return; }\<close>.
\<close>

definition serviceUp ::
  "service_query \<Rightarrow> user_filter option \<Rightarrow> app_callback \<Rightarrow> string list \<Rightarrow> service_cache
     \<Rightarrow> raw_service \<Rightarrow> service_cache \<times> service_spec list \<times> outcome" where
  "serviceUp serviceQuery userServiceFilter callback myaddresses serviceCache service =
     (if \<not> serviceQueryFilter serviceQuery service then (serviceCache, [], Returned)
      else
        (case serviceAddressFilter myaddresses serviceCache service of
           (Inl err, serviceCache') \<Rightarrow> (serviceCache', [], Escaped err)
         | (Inr filteredServiceAddresses, serviceCache') \<Rightarrow>
             if length filteredServiceAddresses \<noteq> 0 then
               (let serviceRecord = suggested_record service filteredServiceAddresses
                in case (case userServiceFilter of
                           None \<Rightarrow> Inr True
                         | Some f \<Rightarrow> f serviceRecord) of
                     Inl err \<Rightarrow> (serviceCache', [], Escaped err)
                   | Inr False \<Rightarrow> (serviceCache', [], Returned)
                   | Inr True \<Rightarrow>
                       (case callback (getSuggestedServiceSpec serviceRecord) of
                          None \<Rightarrow>
                            (serviceCache', [getSuggestedServiceSpec serviceRecord], Returned)
                        | Some err \<Rightarrow>
                            (serviceCache', [getSuggestedServiceSpec serviceRecord], Returned)))
             else (serviceCache', [], Returned)))"

text \<open>
  The events of the browser, and the handlers of lines 111-144 run on them one at a time,
  in the order of delivery: \<^verbatim>\<open>serviceUp\<close> as above, \<^verbatim>\<open>serviceDown\<close> removing the service
  from the cache, \<^verbatim>\<open>serviceChanged\<close> doing nothing. An error that escapes a handler ends
  the run.
\<close>

datatype event = ServiceUp raw_service | ServiceDown raw_service | ServiceChanged raw_service

fun deliver ::
  "service_query \<Rightarrow> user_filter option \<Rightarrow> app_callback \<Rightarrow> string list \<Rightarrow> service_cache
     \<Rightarrow> event list \<Rightarrow> service_cache \<times> service_spec list \<times> outcome" where
  "deliver q uf cb my serviceCache [] = (serviceCache, [], Returned)"
| "deliver q uf cb my serviceCache (ServiceUp service # evs) =
     (case serviceUp q uf cb my serviceCache service of
        (serviceCache', specs, Escaped err) \<Rightarrow> (serviceCache', specs, Escaped err)
      | (serviceCache', specs, Returned) \<Rightarrow>
          (case deliver q uf cb my serviceCache' evs of
             (serviceCache'', specs', out) \<Rightarrow> (serviceCache'', specs @ specs', out)))"
| "deliver q uf cb my serviceCache (ServiceDown service # evs) =
     deliver q uf cb my (removeServiceFromCache service serviceCache) evs"
| "deliver q uf cb my serviceCache (ServiceChanged service # evs) =
     deliver q uf cb my serviceCache evs"

text \<open>
  The handler in the order in which section 4.6 of the specification words it: the
  admission pipeline first, then, for a non-empty list, the query matcher and the user
  filter, then the callback. It is compared with \<open>serviceUp\<close> below.
\<close>

definition serviceUp_as_specified ::
  "service_query \<Rightarrow> user_filter option \<Rightarrow> app_callback \<Rightarrow> string list \<Rightarrow> service_cache
     \<Rightarrow> raw_service \<Rightarrow> service_cache \<times> service_spec list \<times> outcome" where
  "serviceUp_as_specified serviceQuery userServiceFilter callback myaddresses serviceCache service =
     (case serviceAddressFilter myaddresses serviceCache service of
        (Inl err, serviceCache') \<Rightarrow> (serviceCache', [], Escaped err)
      | (Inr filteredServiceAddresses, serviceCache') \<Rightarrow>
          if length filteredServiceAddresses \<noteq> 0 then
            (let serviceRecord = suggested_record service filteredServiceAddresses
             in if \<not> serviceQueryFilter serviceQuery service then (serviceCache', [], Returned)
                else
                  case (case userServiceFilter of
                          None \<Rightarrow> Inr True
                        | Some f \<Rightarrow> f serviceRecord) of
                    Inl err \<Rightarrow> (serviceCache', [], Escaped err)
                  | Inr False \<Rightarrow> (serviceCache', [], Returned)
                  | Inr True \<Rightarrow>
                      (serviceCache', [getSuggestedServiceSpec serviceRecord], Returned))
          else (serviceCache', [], Returned))"

section \<open>Starting discovery\<close>

text \<open>
  The first argument of \<^verbatim>\<open>discoverServices\<close> is any JavaScript value: \<^verbatim>\<open>undefined\<close>,
  \<^verbatim>\<open>null\<close>, or a value with, possibly, a constructor, of which line 101 reads the name,
  and, possibly, a \<^verbatim>\<open>rawQuery\<close> object, with which it has the fields of a query.
\<close>

datatype js_argument = Undefined | Null | Object "string option" "service_query option"

text \<open>
  The mDNS engine, as far as \<^verbatim>\<open>discoverServices\<close> calls it: \<^verbatim>\<open>mdns.createBrowser\<close> on
  the type of the query (line 109) and \<^verbatim>\<open>browser.start\<close> (line 146). Each returns,
  \<open>None\<close>, or throws, \<open>Some message\<close>.
\<close>

record mdns_engine =
  createBrowser :: "string \<Rightarrow> string option"
  start :: "string option"

text \<open>The browser created on line 109, with the three values its handlers close over.\<close>

record browser =
  browsed_type :: string
  browser_query :: service_query
  browser_filter :: "user_filter option"
  browser_callback :: app_callback

text \<open>
  \<^verbatim>\<open>discoverServices(serviceQuery, userServiceFilter, callback)\<close>, lines 99-147. Reading
  \<^verbatim>\<open>serviceQuery.constructor\<close> on \<^verbatim>\<open>undefined\<close> or \<^verbatim>\<open>null\<close>, and reading \<^verbatim>\<open>.name\<close> on a
  missing constructor, throws a \<^verbatim>\<open>TypeError\<close> (line 101); so does reading
  \<^verbatim>\<open>rawServiceQuery.type\<close> when the value has no \<^verbatim>\<open>rawQuery\<close> (line 109). What the engine
  throws on lines 109 and 146 is not caught.
\<close>

definition discoverServices ::
  "mdns_engine \<Rightarrow> js_argument \<Rightarrow> user_filter option \<Rightarrow> app_callback \<Rightarrow> error + browser" where
  "discoverServices mdns serviceQuery userServiceFilter callback =
     (case serviceQuery of
        Undefined \<Rightarrow> Inl TypeError
      | Null \<Rightarrow> Inl TypeError
      | Object None query_fields \<Rightarrow> Inl TypeError
      | Object (Some constructor_name) query_fields \<Rightarrow>
          if constructor_name \<noteq> ''ServiceQuery'' then Inl InvalidArgument
          else
            (case query_fields of
               None \<Rightarrow> Inl TypeError
             | Some query \<Rightarrow>
                 (case createBrowser mdns (q_type (rawQuery query)) of
                    Some message \<Rightarrow> Inl (EngineError message)
                  | None \<Rightarrow>
                      (case start mdns of
                         Some message \<Rightarrow> Inl (EngineError message)
                       | None \<Rightarrow>
                           Inr \<lparr>browsed_type = q_type (rawQuery query),
                                browser_query = query,
                                browser_filter = userServiceFilter,
                                browser_callback = callback\<rparr>))))"

text \<open>An argument is a recognised query object when its constructor is named so.\<close>

definition is_ServiceQuery :: "js_argument \<Rightarrow> bool" where
  "is_ServiceQuery serviceQuery =
     (case serviceQuery of
        Object (Some constructor_name) query_fields \<Rightarrow> constructor_name = ''ServiceQuery''
      | _ \<Rightarrow> False)"

text \<open>
  The condition of line 125, \<^verbatim>\<open>!userServiceFilter || userServiceFilter(serviceRecord)\<close>,
  holding: there is no user filter, or it returns a truthy value.
\<close>

definition user_filter_passes :: "user_filter option \<Rightarrow> service_record \<Rightarrow> bool" where
  "user_filter_passes uf r = (case uf of None \<Rightarrow> True | Some f \<Rightarrow> f r = Inr True)"

section \<open>The matching prefix length\<close>

text \<open>
  The loop counts the leading positions at which the two strings have the same
  character: its result is the length of their longest common prefix.
\<close>

lemma prefix_loop_common:
  "i \<le> length s \<Longrightarrow> i \<le> length m \<Longrightarrow>
   prefix_loop s m i = i + length (takeWhile (\<lambda>(a, b). a = b) (zip (drop i s) (drop i m)))"
proof (induction s m i rule: prefix_loop.induct)
  case (1 s m i)
  show ?case
  proof (cases "i < length s \<and> i < length m")
    case True
    then have ds: "drop i s = s ! i # drop (Suc i) s" and dm: "drop i m = m ! i # drop (Suc i) m"
      by (simp_all add: Cons_nth_drop_Suc)
    show ?thesis
    proof (cases "s ! i = m ! i")
      case same: True
      with True "1.IH" show ?thesis
        by (subst prefix_loop.simps) (simp add: ds dm)
    next
      case False
      with True show ?thesis
        by (subst prefix_loop.simps) (simp add: ds dm)
    qed
  next
    case False
    with "1.prems" have "drop i s = [] \<or> drop i m = []" by auto
    with False show ?thesis
      by (subst prefix_loop.simps) auto
  qed
qed

lemma getMatchingPrefixLen_common:
  "getMatchingPrefixLen s m = length (takeWhile (\<lambda>(a, b). a = b) (zip s m))"
  using prefix_loop_common [of 0 s m] by (simp add: getMatchingPrefixLen_def)

section \<open>The store of prefix lengths\<close>

lemma fill_store_no_local: "fill_store [] serviceAddresses = []"
  by (induction serviceAddresses) (simp_all add: fill_store_def)

lemma set_key_set: "set (set_key k ks) = insert k (set ks)"
  by (auto simp: set_key_def)

lemma set_key_distinct: "distinct ks \<Longrightarrow> distinct (set_key k ks)"
  by (simp add: set_key_def)

lemma set_key_idem: "set_key k (set_key k ks) = set_key k ks"
  by (simp add: set_key_def)

lemma fold_store_add_zero_empty:
  "my \<noteq> [] \<Longrightarrow> fold (\<lambda>m. store_add 0 c) my [] = [(0, [c])]"
proof (induction my rule: rev_nonempty_induct)
  case (single m) then show ?case by simp
next
  case (snoc m my) then show ?case by (simp add: set_key_def)
qed

lemma fold_store_add_zero_entry:
  "my \<noteq> [] \<Longrightarrow> fold (\<lambda>m. store_add 0 c) my [(0, ks)] = [(0, set_key c ks)]"
proof (induction my rule: rev_nonempty_induct)
  case (single m) then show ?case by simp
next
  case (snoc m my) then show ?case by (simp add: set_key_idem)
qed

lemma fold_zero_store:
  assumes "my \<noteq> []"
  shows "fold (\<lambda>c. fold (\<lambda>m. store_add 0 c) my) cands [(0, ks)]
           = [(0, fold set_key cands ks)]"
  using assms by (induction cands arbitrary: ks) (simp_all add: fold_store_add_zero_entry)

lemma fold_set_key: "set (fold set_key cands ks) = set ks \<union> set cands"
  by (induction cands arbitrary: ks) (auto simp: set_key_set)

lemma fold_set_key_distinct: "distinct ks \<Longrightarrow> distinct (fold set_key cands ks)"
  by (induction cands arbitrary: ks) (simp_all add: set_key_distinct)

lemma fill_store_all_zero:
  assumes "my \<noteq> []" and "cands \<noteq> []"
    and "\<forall>c \<in> set cands. \<forall>m \<in> set my. getMatchingPrefixLen c m = 0"
  shows "fill_store my cands = [(0, fold set_key cands [])]"
proof -
  have "fill_store my cands = fold (\<lambda>c. fold (\<lambda>m. store_add 0 c) my) cands []"
    unfolding fill_store_def
    using assms(3) by (intro fold_cong refl) (auto intro!: fold_cong)
  also have "\<dots> = [(0, fold set_key cands [])]"
  proof (cases cands)
    case Nil with assms(2) show ?thesis by simp
  next
    case (Cons c cs)
    then show ?thesis
      using assms(1) by (simp add: fold_store_add_zero_empty fold_zero_store set_key_def)
  qed
  finally show ?thesis .
qed

lemma rank_all_zero:
  assumes "my \<noteq> []"
    and "\<forall>c \<in> set cands. \<forall>m \<in> set my. getMatchingPrefixLen c m = 0"
  shows "rank cands my = sort (remdups cands)"
proof (cases "cands = []")
  case True
  then show ?thesis by (simp add: rank_def getAddressesWithLongestPrefixMatch_def fill_store_def)
next
  case False
  have "rank cands my = sort (fold set_key cands [])"
    using fill_store_all_zero[OF assms(1) False assms(2)]
    by (simp add: rank_def getAddressesWithLongestPrefixMatch_def)
  also have "\<dots> = sort (remdups cands)"
    by (rule sorted_distinct_set_unique)
       (simp_all add: fold_set_key fold_set_key_distinct)
  finally show ?thesis .
qed

section \<open>Ranking\<close>

text \<open>
  C1, as the code has it. With no local address the loops of
  \<^verbatim>\<open>getAddressesWithLongestPrefixMatch\<close> score no pair, the store stays empty and the
  guard of line 269 returns the empty list: ranking gives no address at all, whatever
  the candidates are. The single tie group of all candidates, each once and sorted, is
  what ranking gives when there is at least one local address and every candidate shares
  no leading character with any local address.
\<close>

theorem rank_without_local_addresses:
  "rank candidateAddresses [] = []
   \<and> (localAddresses \<noteq> []
        \<and> (\<forall>c \<in> set candidateAddresses. \<forall>m \<in> set localAddresses. getMatchingPrefixLen c m = 0)
      \<longrightarrow> rank candidateAddresses localAddresses = sort (remdups candidateAddresses))"
  using rank_all_zero
  by (simp add: rank_def getAddressesWithLongestPrefixMatch_def fill_store_no_local)

text \<open>
  The claim C1 as it is stated fails: ranking two candidates against no local address
  gives the empty list, not the two candidates sorted.
\<close>

theorem rank_without_local_addresses_counterexample:
  "rank [''10.0.1.9'', ''10.0.0.5''] [] = []
   \<and> rank [''10.0.1.9'', ''10.0.0.5''] [] \<noteq> [''10.0.0.5'', ''10.0.1.9'']"
  by (simp add: rank_def getAddressesWithLongestPrefixMatch_def fill_store_def)

theorem rank_without_local_addresses_witness:
  "getMatchingPrefixLen ''10.0.1.9'' ''203.0.113.7'' = 0
   \<and> getMatchingPrefixLen ''10.0.0.5'' ''203.0.113.7'' = 0
   \<and> rank [''10.0.1.9'', ''10.0.0.5'', ''10.0.1.9''] [''203.0.113.7'']
       = [''10.0.0.5'', ''10.0.1.9'']
   \<and> rank [''10.0.1.9'', ''10.0.0.5'', ''10.0.1.9''] [] = []"
proof -
  let ?cands = "[''10.0.1.9'', ''10.0.0.5'', ''10.0.1.9'']"
  have z1: "getMatchingPrefixLen ''10.0.1.9'' ''203.0.113.7'' = 0"
    and z2: "getMatchingPrefixLen ''10.0.0.5'' ''203.0.113.7'' = 0"
    by (simp_all add: getMatchingPrefixLen_def prefix_loop.simps)
  have h1: "[''203.0.113.7''] \<noteq> []" by simp
  have h2: "\<forall>c \<in> set ?cands. \<forall>m \<in> set [''203.0.113.7'']. getMatchingPrefixLen c m = 0"
    using z1 z2 by simp
  have ev: "sort (remdups ?cands) = [''10.0.0.5'', ''10.0.1.9'']"
    by code_simp
  have c1: "rank ?cands [''203.0.113.7''] = sort (remdups ?cands)"
    and c2: "rank ?cands [] = []"
    using rank_without_local_addresses [of ?cands "[''203.0.113.7'']"] h1 h2 by blast+
  from z1 z2 c1 [unfolded ev] c2 show ?thesis by blast
qed

text \<open>
  C6. With the local addresses \<^verbatim>\<open>["10.0.0.1"]\<close>, ranking \<^verbatim>\<open>["10.0.0.5","10.0.1.9"]\<close>
  gives exactly \<^verbatim>\<open>["10.0.0.5"]\<close>, and ranking \<^verbatim>\<open>["10.0.0.5","10.0.0.6"]\<close> gives exactly
  \<^verbatim>\<open>["10.0.0.5","10.0.0.6"]\<close>, in that order. The prefix length of a pair is the number
  of leading characters the two strings share (the last conjunct, for any two strings):
  7 for 10.0.0.5 and 10.0.0.6 against 10.0.0.1, and 5 for 10.0.1.9.
\<close>

theorem rank_examples:
  "rank [''10.0.0.5'', ''10.0.1.9''] [''10.0.0.1''] = [''10.0.0.5'']
   \<and> rank [''10.0.0.5'', ''10.0.0.6''] [''10.0.0.1''] = [''10.0.0.5'', ''10.0.0.6'']
   \<and> getMatchingPrefixLen ''10.0.0.5'' ''10.0.0.1'' = 7
   \<and> getMatchingPrefixLen ''10.0.0.6'' ''10.0.0.1'' = 7
   \<and> getMatchingPrefixLen ''10.0.1.9'' ''10.0.0.1'' = 5
   \<and> getMatchingPrefixLen serviceAddress myaddress
       = length (takeWhile (\<lambda>(a, b). a = b) (zip serviceAddress myaddress))"
proof -
  have examples:
    "rank [''10.0.0.5'', ''10.0.1.9''] [''10.0.0.1''] = [''10.0.0.5'']
     \<and> rank [''10.0.0.5'', ''10.0.0.6''] [''10.0.0.1''] = [''10.0.0.5'', ''10.0.0.6'']
     \<and> getMatchingPrefixLen ''10.0.0.5'' ''10.0.0.1'' = 7
     \<and> getMatchingPrefixLen ''10.0.0.6'' ''10.0.0.1'' = 7
     \<and> getMatchingPrefixLen ''10.0.1.9'' ''10.0.0.1'' = 5"
    by code_simp
  from examples getMatchingPrefixLen_common [of serviceAddress myaddress]
  show ?thesis by blast
qed

section \<open>The admission loop\<close>

text \<open>
  As long as every key added to \<^verbatim>\<open>Object.prototype\<close> is also an own key of the entry of
  the name (so in particular as long as no key was added to \<^verbatim>\<open>Object.prototype\<close>), the
  loop of lines 297-306 does not throw, the entry of the name gains the addresses of the
  event, and \<^verbatim>\<open>notSeenBefore\<close> holds, once each, the addresses of the event that were not
  in the entry.
\<close>

lemma no_inherited_true:
  "set (prototype_keys c) \<subseteq> set (cached c nm) \<Longrightarrow> lookup_entry c nm \<noteq> Inherited_true"
  by (auto simp: lookup_entry_def cached_def split: option.splits)

lemma seen_own:
  "set (prototype_keys c) \<subseteq> set (cached c nm) \<Longrightarrow> seen c nm a \<longleftrightarrow> a \<in> set (cached c nm)"
  by (auto simp: seen_def)

lemma note_address_own:
  assumes "set (prototype_keys c) \<subseteq> set (cached c nm)"
  shows "\<exists>c'. note_address nm a c = (c', Inr (a \<notin> set (cached c nm)))
           \<and> set (cached c' nm) = insert a (set (cached c nm))
           \<and> set (prototype_keys c') \<subseteq> set (cached c' nm)"
  using assms
  by (auto simp: note_address_def lookup_entry_def seen_def prototype_keys_def cached_def Let_def
           split: option.splits if_splits cache_entry.splits)

lemma note_addresses_own:
  assumes "set (prototype_keys c) \<subseteq> set (cached c nm)"
    and "distinct ns" and "set ns \<subseteq> set (cached c nm)"
  shows "\<exists>c' ns'. note_addresses nm addrs c ns = (c', Inr ns')
           \<and> set (cached c' nm) = set (cached c nm) \<union> set addrs
           \<and> distinct ns'
           \<and> set ns' = set ns \<union> (set addrs - set (cached c nm))"
  using assms
proof (induction addrs arbitrary: c ns)
  case Nil
  then show ?case by simp
next
  case (Cons a addrs)
  from note_address_own [OF Cons.prems(1), of a]
  obtain c1 where step: "note_address nm a c = (c1, Inr (a \<notin> set (cached c nm)))"
    and keys: "set (cached c1 nm) = insert a (set (cached c nm))"
    and inv: "set (prototype_keys c1) \<subseteq> set (cached c1 nm)"
    by blast
  let ?ns = "if a \<notin> set (cached c nm) then ns @ [a] else ns"
  have d: "distinct ?ns" using Cons.prems(2,3) by auto
  have s: "set ?ns \<subseteq> set (cached c1 nm)" using Cons.prems(3) keys by auto
  from Cons.IH [OF inv d s]
  obtain c' ns' where rest: "note_addresses nm addrs c1 ?ns = (c', Inr ns')"
    and k': "set (cached c' nm) = set (cached c1 nm) \<union> set addrs"
    and d': "distinct ns'"
    and s': "set ns' = set ?ns \<union> (set addrs - set (cached c1 nm))"
    by blast
  have "note_addresses nm (a # addrs) c ns = (c', Inr ns')"
    using step rest by simp
  moreover have "set (cached c' nm) = set (cached c nm) \<union> set (a # addrs)"
    using k' keys by auto
  moreover have "set ns' = set ns \<union> (set (a # addrs) - set (cached c nm))"
    using s' keys by auto
  ultimately show ?case using d' by blast
qed

text \<open>One step of the loop, by what the read of line 299 gives and the test of line 302.\<close>

lemma lookup_entry_update: "lookup_entry (c(nm \<mapsto> ks)) nm = Keys ks"
  by (simp add: lookup_entry_def cached_def)

lemma cached_update: "cached (c(nm \<mapsto> ks)) nm = ks"
  by (simp add: cached_def)

lemma prototype_keys_update:
  "prototype_keys (c(nm \<mapsto> ks)) = (if nm = ''__proto__'' then ks else prototype_keys c)"
  by (simp add: prototype_keys_def cached_def)

lemma lookup_entry_Missing:
  "lookup_entry c nm = Missing \<Longrightarrow> nm \<noteq> ''__proto__'' \<and> c nm = None"
  by (auto simp: lookup_entry_def split: if_splits option.splits)

lemma seen_created:
  "lookup_entry c nm = Missing \<Longrightarrow> seen (c(nm \<mapsto> [])) nm x = seen c nm x"
  by (drule lookup_entry_Missing) (simp add: seen_def cached_def prototype_keys_def)

lemma seen_stored:
  "seen c nm x \<Longrightarrow> seen (c(nm \<mapsto> cached c nm @ [a])) nm x"
  by (cases "nm = ''__proto__''") (auto simp: seen_def cached_def prototype_keys_def)

lemma seen_stored_self: "seen (c(nm \<mapsto> ks @ [a])) nm a"
  by (simp add: seen_def cached_update)

lemma note_address_unfold:
  "note_address nm a c =
     (if lookup_entry c nm = Missing
      then (if seen c nm a then (c(nm \<mapsto> []), Inr False)
            else (c(nm \<mapsto> [a]), Inr True))
      else if seen c nm a then (c, Inr False)
      else if lookup_entry c nm = Inherited_true then (c, Inl TypeError)
      else (c(nm \<mapsto> cached c nm @ [a]), Inr True))"
proof (cases "lookup_entry c nm")
  case Missing
  then show ?thesis
    by (simp add: note_address_def Let_def seen_created lookup_entry_update cached_update)
next
  case (Keys ks)
  then show ?thesis by (simp add: note_address_def Let_def)
next
  case Inherited_true
  then show ?thesis by (simp add: note_address_def Let_def)
qed

lemma note_address_grows:
  assumes "note_address nm a c = (c', r)"
  shows "(seen c nm x \<longrightarrow> seen c' nm x)
         \<and> (lookup_entry c nm \<noteq> Missing \<longrightarrow> lookup_entry c' nm \<noteq> Missing)"
proof (cases "lookup_entry c nm = Missing")
  case True
  then have cm: "cached c nm = []" by (auto dest: lookup_entry_Missing simp: cached_def)
  show ?thesis
  proof (cases "seen c nm a")
    case True
    with \<open>lookup_entry c nm = Missing\<close> assms have "c' = c(nm \<mapsto> [])"
      by (simp add: note_address_unfold)
    with \<open>lookup_entry c nm = Missing\<close> show ?thesis by (simp add: seen_created)
  next
    case False
    with \<open>lookup_entry c nm = Missing\<close> assms have "c' = c(nm \<mapsto> cached c nm @ [a])"
      by (simp add: note_address_unfold cm)
    with \<open>lookup_entry c nm = Missing\<close> show ?thesis by (simp add: seen_stored)
  qed
next
  case False
  show ?thesis
  proof (cases "seen c nm a \<or> lookup_entry c nm = Inherited_true")
    case True
    with False assms have "c' = c" by (auto simp: note_address_unfold split: if_splits)
    then show ?thesis by simp
  next
    case nt: False
    with False assms have "c' = c(nm \<mapsto> cached c nm @ [a])"
      by (simp add: note_address_unfold)
    then show ?thesis by (simp add: seen_stored lookup_entry_update)
  qed
qed

lemma note_address_returned:
  assumes "note_address nm a c = (c', Inr b)"
  shows "seen c' nm a \<and> lookup_entry c' nm \<noteq> Missing"
proof (cases "seen c nm a")
  case True
  from note_address_grows [OF assms, of a] True have s: "seen c' nm a" by simp
  have "lookup_entry c' nm \<noteq> Missing"
  proof (cases "lookup_entry c nm = Missing")
    case True
    with \<open>seen c nm a\<close> assms have "c' = c(nm \<mapsto> [])" by (simp add: note_address_unfold)
    then show ?thesis by (simp add: lookup_entry_update)
  next
    case False
    with note_address_grows [OF assms] show ?thesis by simp
  qed
  with s show ?thesis by simp
next
  case False
  then have "c' = c(nm \<mapsto> cached c nm @ [a]) \<or> c' = c(nm \<mapsto> [a])"
    using assms by (auto simp: note_address_unfold split: if_splits)
  then show ?thesis by (auto simp: lookup_entry_update seen_def cached_update)
qed

text \<open>
  In any state: a step never forgets an address it read as seen, and when the loop
  returns, every address of the event reads as seen, so that a second run of the loop
  finds nothing new and changes nothing.
\<close>

lemma note_addresses_grows:
  assumes "note_addresses nm addrs c ns = (c', r)"
  shows "(seen c nm x \<longrightarrow> seen c' nm x)
         \<and> (lookup_entry c nm \<noteq> Missing \<longrightarrow> lookup_entry c' nm \<noteq> Missing)"
  using assms
proof (induction addrs arbitrary: c ns)
  case Nil
  then show ?case by simp
next
  case (Cons a addrs)
  obtain c1 r1 where step: "note_address nm a c = (c1, r1)" by (cases "note_address nm a c")
  show ?case
  proof (cases r1)
    case (Inl err)
    with step Cons.prems have "c' = c1" by simp
    with note_address_grows [OF step] show ?thesis by simp
  next
    case (Inr b)
    with step Cons.prems
    have "note_addresses nm addrs c1 (if b then ns @ [a] else ns) = (c', r)" by simp
    from Cons.IH [OF this] note_address_grows [OF step] show ?thesis by blast
  qed
qed

lemma note_addresses_returned:
  assumes "note_addresses nm addrs c ns = (c', Inr ns')"
  shows "(\<forall>a \<in> set addrs. seen c' nm a) \<and> (addrs \<noteq> [] \<longrightarrow> lookup_entry c' nm \<noteq> Missing)"
  using assms
proof (induction addrs arbitrary: c ns)
  case Nil
  then show ?case by simp
next
  case (Cons a addrs)
  obtain c1 r1 where step: "note_address nm a c = (c1, r1)" by (cases "note_address nm a c")
  show ?case
  proof (cases r1)
    case (Inl err)
    with step Cons.prems show ?thesis by simp
  next
    case (Inr b)
    with step Cons.prems
    have rest: "note_addresses nm addrs c1 (if b then ns @ [a] else ns) = (c', Inr ns')" by simp
    from note_address_returned step Inr
    have "seen c1 nm a" and "lookup_entry c1 nm \<noteq> Missing" by blast+
    with note_addresses_grows [OF rest]
    have "seen c' nm a" and "lookup_entry c' nm \<noteq> Missing" by blast+
    with Cons.IH [OF rest] show ?thesis by simp
  qed
qed

lemma note_address_again:
  "seen c nm a \<Longrightarrow> lookup_entry c nm \<noteq> Missing \<Longrightarrow> note_address nm a c = (c, Inr False)"
  by (simp add: note_address_unfold)

lemma note_addresses_again:
  assumes "\<forall>a \<in> set addrs. seen c nm a" and "addrs \<noteq> [] \<longrightarrow> lookup_entry c nm \<noteq> Missing"
  shows "note_addresses nm addrs c ns = (c, Inr ns)"
  using assms by (induction addrs) (simp_all add: note_address_again)

lemma serviceIsLocal_iff:
  "serviceIsLocal my as \<longleftrightarrow> (\<exists>a \<in> set as. a \<in> set my)"
  by (auto simp: serviceIsLocal_def list_ex_iff)

lemma unextended_prototype:
  "prototype_keys c = [] \<Longrightarrow> set (prototype_keys c) \<subseteq> set (cached c nm)"
  by simp

lemmas admission_eval =
  serviceAddressFilter_def note_address_def lookup_entry_def seen_def prototype_keys_def
  prototype_members_def cached_def serviceIsLocal_def Let_def

section \<open>Admission\<close>

text \<open>
  C4. A record with a name and addresses that contributes a new address, and for whose
  name a local address has been reported, must be admitted as the one-element list of
  the loopback marker. The code does not after an event of a service named
  \<^verbatim>\<open>__proto__\<close>: line 303 has stored the address of that event in \<^verbatim>\<open>Object.prototype\<close>, so
  every entry inherits it and line 302 reads it as seen under every name. With the local
  address 192.168.1.7 announced first by \<^verbatim>\<open>__proto__\<close> (admitted as the loopback marker),
  nothing is cached for the name \<^verbatim>\<open>printer\<close>; the event of \<^verbatim>\<open>printer\<close> with the addresses
  192.168.1.7 and 10.0.0.6 is admitted as 10.0.0.6 alone, and its event with the address
  192.168.1.7 alone gives the empty list.
\<close>

theorem loopback_lost_after_prototype_event:
  "fst (serviceAddressFilter [''192.168.1.7''] Map.empty
          \<lparr>name = Some ''__proto__'', type = None, port = None,
           addresses = Some [''192.168.1.7''], properties = None\<rparr>) = Inr [''127.0.0.1'']
   \<and> cached (snd (serviceAddressFilter [''192.168.1.7''] Map.empty
          \<lparr>name = Some ''__proto__'', type = None, port = None,
           addresses = Some [''192.168.1.7''], properties = None\<rparr>)) ''printer'' = []
   \<and> fst (serviceAddressFilter [''192.168.1.7'']
          (snd (serviceAddressFilter [''192.168.1.7''] Map.empty
             \<lparr>name = Some ''__proto__'', type = None, port = None,
              addresses = Some [''192.168.1.7''], properties = None\<rparr>))
          \<lparr>name = Some ''printer'', type = None, port = None,
           addresses = Some [''192.168.1.7'', ''10.0.0.6''], properties = None\<rparr>)
       = Inr [''10.0.0.6'']
   \<and> fst (serviceAddressFilter [''192.168.1.7'']
          (snd (serviceAddressFilter [''192.168.1.7''] Map.empty
             \<lparr>name = Some ''__proto__'', type = None, port = None,
              addresses = Some [''192.168.1.7''], properties = None\<rparr>))
          \<lparr>name = Some ''printer'', type = None, port = None,
           addresses = Some [''192.168.1.7''], properties = None\<rparr>)
       = Inr []"
  by (simp add: admission_eval LOCAL_ADDR_def)

text \<open>
  Where no key was added to \<^verbatim>\<open>Object.prototype\<close>, the code does what C4 says, for every
  name: with an address of the event that is not cached for the name, and a local address
  among the addresses cached for the name and those of the event, the result is the
  loopback marker.
\<close>

lemma local_service_gets_loopback_unextended:
  assumes "name s = Some nm" and "nm \<noteq> []" and "addresses s = Some addrs"
    and "prototype_keys c = []"
    and "\<exists>a \<in> set addrs. a \<notin> set (cached c nm)"
    and "\<exists>a \<in> set (cached c nm) \<union> set addrs. a \<in> set my"
  shows "fst (serviceAddressFilter my c s) = Inr [LOCAL_ADDR]"
proof -
  from note_addresses_own [OF unextended_prototype [OF assms(4)], of "[]" nm addrs]
  obtain c' ns' where loop: "note_addresses nm addrs c [] = (c', Inr ns')"
    and keys: "set (cached c' nm) = set (cached c nm) \<union> set addrs"
    and new: "set ns' = set addrs - set (cached c nm)"
    by auto
  have "ns' \<noteq> []" using new assms(5) by auto
  moreover have "serviceIsLocal my (cached c' nm)"
    using keys assms(6) by (simp add: serviceIsLocal_iff)
  ultimately show ?thesis
    using assms(1-3) loop by (simp add: serviceAddressFilter_def)
qed

text \<open>
  C5. The second of two runs of the admission pipeline on the same record must give the
  empty result. The code does not when the name of the record is a key that an event of
  a service named \<^verbatim>\<open>__proto__\<close> has added to \<^verbatim>\<open>Object.prototype\<close>: line 299 reads the
  inherited \<^verbatim>\<open>true\<close> as the entry of the name, and for an address that is not seen the
  assignment of line 303 throws a \<^verbatim>\<open>TypeError\<close>, in the first run and again in the
  second. Here \<^verbatim>\<open>__proto__\<close> has announced the address 10.0.0.5, and the record is that of
  a service named \<^verbatim>\<open>10.0.0.5\<close> with the address 10.0.0.6.
\<close>

theorem second_admission_throws_after_prototype_event:
  "fst (serviceAddressFilter [''10.0.0.1''] Map.empty
          \<lparr>name = Some ''__proto__'', type = None, port = None,
           addresses = Some [''10.0.0.5''], properties = None\<rparr>) = Inr [''10.0.0.5'']
   \<and> fst (serviceAddressFilter [''10.0.0.1'']
          (snd (serviceAddressFilter [''10.0.0.1''] Map.empty
             \<lparr>name = Some ''__proto__'', type = None, port = None,
              addresses = Some [''10.0.0.5''], properties = None\<rparr>))
          \<lparr>name = Some ''10.0.0.5'', type = None, port = None,
           addresses = Some [''10.0.0.6''], properties = None\<rparr>)
       = Inl TypeError
   \<and> fst (serviceAddressFilter [''10.0.0.1'']
          (snd (serviceAddressFilter [''10.0.0.1'']
             (snd (serviceAddressFilter [''10.0.0.1''] Map.empty
                \<lparr>name = Some ''__proto__'', type = None, port = None,
                 addresses = Some [''10.0.0.5''], properties = None\<rparr>))
             \<lparr>name = Some ''10.0.0.5'', type = None, port = None,
              addresses = Some [''10.0.0.6''], properties = None\<rparr>))
          \<lparr>name = Some ''10.0.0.5'', type = None, port = None,
           addresses = Some [''10.0.0.6''], properties = None\<rparr>)
       = Inl TypeError"
  by (simp add: admission_eval)

text \<open>
  Whenever the first run returns, in any state and for every name, the code does what C5
  says: the second run gives the empty result and leaves the cache as the first left it.
\<close>

lemma second_admission_empty_when_first_returns:
  assumes "fst (serviceAddressFilter my c s) = Inr r"
  shows "serviceAddressFilter my (snd (serviceAddressFilter my c s)) s
           = (Inr [], snd (serviceAddressFilter my c s))"
proof (cases "addresses s")
  case None
  then show ?thesis by (simp add: serviceAddressFilter_def)
next
  case (Some addrs)
  show ?thesis
  proof (cases "name s")
    case None
    then show ?thesis using Some by (simp add: serviceAddressFilter_def)
  next
    case nm: (Some nm)
    show ?thesis
    proof (cases "nm = []")
      case True
      then show ?thesis using Some nm by (simp add: serviceAddressFilter_def)
    next
      case False
      obtain c' res where loop: "note_addresses nm addrs c [] = (c', res)"
        by (cases "note_addresses nm addrs c []")
      from assms Some nm False loop obtain ns' where res: "res = Inr ns'"
        by (cases res) (auto simp: serviceAddressFilter_def)
      have c1: "snd (serviceAddressFilter my c s) = c'"
        using Some nm False loop res by (simp add: serviceAddressFilter_def)
      have "note_addresses nm addrs c' [] = (c', Inr [])"
        using note_addresses_returned [OF loop [unfolded res]]
        by (intro note_addresses_again) blast+
      then show ?thesis
        unfolding c1 using Some nm False by (simp add: serviceAddressFilter_def)
    qed
  qed
qed

text \<open>
  C7. A record with a name and addresses that is not local, and of whose addresses
  exactly one is not cached for its name, must be admitted as that one address. The
  code does not after an event of a service named \<^verbatim>\<open>__proto__\<close> with that address: the
  address 10.0.0.5, which is not local and not cached for the name \<^verbatim>\<open>valve\<close>, is read as
  seen through \<^verbatim>\<open>Object.prototype\<close>, so \<^verbatim>\<open>notSeenBefore\<close> stays empty and line 309
  returns the empty list.
\<close>

theorem new_address_dropped_after_prototype_event:
  "fst (serviceAddressFilter [''10.0.0.1''] Map.empty
          \<lparr>name = Some ''__proto__'', type = None, port = None,
           addresses = Some [''10.0.0.5''], properties = None\<rparr>) = Inr [''10.0.0.5'']
   \<and> cached (snd (serviceAddressFilter [''10.0.0.1''] Map.empty
          \<lparr>name = Some ''__proto__'', type = None, port = None,
           addresses = Some [''10.0.0.5''], properties = None\<rparr>)) ''valve'' = []
   \<and> \<not> serviceIsLocal [''10.0.0.1''] [''10.0.0.5'']
   \<and> fst (serviceAddressFilter [''10.0.0.1'']
          (snd (serviceAddressFilter [''10.0.0.1''] Map.empty
             \<lparr>name = Some ''__proto__'', type = None, port = None,
              addresses = Some [''10.0.0.5''], properties = None\<rparr>))
          \<lparr>name = Some ''valve'', type = None, port = None,
           addresses = Some [''10.0.0.5''], properties = None\<rparr>)
       = Inr []"
  by (simp add: admission_eval)

text \<open>
  Where no key was added to \<^verbatim>\<open>Object.prototype\<close>, the code does what C7 says, for every
  name: when exactly one address \<open>a\<close> of the event is not cached for the name, and no
  address cached for the name or reported by the event is local, the result is \<open>[a]\<close>,
  whatever the ranker would make of it.
\<close>

lemma single_new_address_verbatim_unextended:
  assumes "name s = Some nm" and "nm \<noteq> []" and "addresses s = Some addrs"
    and "prototype_keys c = []"
    and "set addrs - set (cached c nm) = {a}"
    and "\<not> (\<exists>x \<in> set (cached c nm) \<union> set addrs. x \<in> set my)"
  shows "fst (serviceAddressFilter my c s) = Inr [a]"
proof -
  from note_addresses_own [OF unextended_prototype [OF assms(4)], of "[]" nm addrs]
  obtain c' ns' where loop: "note_addresses nm addrs c [] = (c', Inr ns')"
    and keys: "set (cached c' nm) = set (cached c nm) \<union> set addrs"
    and d: "distinct ns'"
    and new: "set ns' = set addrs - set (cached c nm)"
    by auto
  have one: "ns' = [a]"
    using d new assms(5) by (cases ns') (auto simp: subset_singleton_iff split: if_splits)
  have "\<not> serviceIsLocal my (cached c' nm)"
    using keys assms(6) by (simp add: serviceIsLocal_iff)
  then show ?thesis
    using assms(1-3) loop one by (simp add: serviceAddressFilter_def)
qed

section \<open>Query matching\<close>

lemmas query_eval =
  serviceQueryFilter_def name_matches_def port_matches_def property_matches_def
  name_specified_def port_specified_def properties_specified_def

text \<open>
  When the name pattern or the port is specified, or \<^verbatim>\<open>query.properties\<close> is set on the
  query object itself, a record that matches no field is rejected.
\<close>

lemma serviceQueryFilter_rejects:
  assumes "name_specified q \<or> port_specified q \<or> query_properties q \<noteq> None"
    and "\<not> name_matches q r" and "\<not> port_matches q r" and "\<not> property_matches q r"
  shows "\<not> serviceQueryFilter q r"
  using assms
  by (auto simp: serviceQueryFilter_def name_specified_def port_specified_def
           split: option.splits)

text \<open>
  C2. A query on which a field is specified must reject a record that matches none of the
  specified fields. The code does not when the property mapping is the only field
  specified: line 368 tests \<^verbatim>\<open>query.properties\<close>, which the query object does not set,
  where lines 351-365 tested \<^verbatim>\<open>query.rawQuery.properties\<close>. For the query with the
  properties \<^verbatim>\<open>{role: "sensor"}\<close> only and a record with \<^verbatim>\<open>{role: "actuator"}\<close>, the
  properties are specified, they do not match, and \<^verbatim>\<open>serviceQueryFilter\<close> returns true.
\<close>

theorem properties_only_query_accepts_mismatch:
  "properties_specified
     \<lparr>nameRegEx = None,
      rawQuery = \<lparr>q_type = ''_thermo._tcp'', q_port = None,
                  q_properties = Some [(''role'', ''sensor'')]\<rparr>,
      query_properties = None\<rparr>
   \<and> \<not> property_matches
     \<lparr>nameRegEx = None,
      rawQuery = \<lparr>q_type = ''_thermo._tcp'', q_port = None,
                  q_properties = Some [(''role'', ''sensor'')]\<rparr>,
      query_properties = None\<rparr>
     \<lparr>name = Some ''valve'', type = Some ''_thermo._tcp'', port = Some 9090,
      addresses = Some [''10.0.0.5''], properties = Some [(''role'', ''actuator'')]\<rparr>
   \<and> serviceQueryFilter
     \<lparr>nameRegEx = None,
      rawQuery = \<lparr>q_type = ''_thermo._tcp'', q_port = None,
                  q_properties = Some [(''role'', ''sensor'')]\<rparr>,
      query_properties = None\<rparr>
     \<lparr>name = Some ''valve'', type = Some ''_thermo._tcp'', port = Some 9090,
      addresses = Some [''10.0.0.5''], properties = Some [(''role'', ''actuator'')]\<rparr>"
  by (simp add: query_eval)

section \<open>The serviceUp handler\<close>

text \<open>What the callback returns or throws changes nothing in what a handler or a run gives.\<close>

lemma serviceUp_any_callback:
  "serviceUp q uf cb my c s = serviceUp q uf cb' my c s"
  by (simp add: serviceUp_def Let_def split: prod.splits option.splits sum.splits bool.splits)

lemma deliver_any_callback:
  "deliver q uf cb my c evs = deliver q uf cb' my c evs"
proof (induction evs arbitrary: c)
  case Nil
  show ?case by simp
next
  case (Cons ev evs)
  show ?case
  proof (cases ev)
    case (ServiceUp s)
    then show ?thesis
      using Cons.IH serviceUp_any_callback [of q uf cb my c s cb'] by simp
  next
    case (ServiceDown s)
    then show ?thesis using Cons.IH by simp
  next
    case (ServiceChanged s)
    then show ?thesis using Cons.IH by simp
  qed
qed

lemmas record_eval =
  suggested_record_def setSuggestedAddress_def setSuggestedAddresses_def
  initFromRawServiceRecord_def getSuggestedServiceSpec_def user_filter_passes_def
  admitted_list_def

text \<open>
  C3, as the code has it. On every \<^verbatim>\<open>serviceUp\<close> event the query matcher is applied
  first, to the raw record. The admission pipeline (duplicate cache, local detection,
  ranking) runs only on a record that satisfies the query, so the cache after the event
  is the cache of the pipeline for such a record and the old cache otherwise. The user
  filter is asked only about a record whose admitted list is non-empty, and the callback
  is called, once, with the descriptor built from the admitted list, exactly when the
  query matcher, the pipeline (non-empty list) and the user filter all passed. An error
  escapes the handler only after the query matcher passed, when the pipeline throws it or
  when the user filter throws it on a non-empty admitted list.
\<close>

theorem query_filter_precedes_admission:
  "fst (serviceUp q uf cb my c s)
     = (if serviceQueryFilter q s then snd (serviceAddressFilter my c s) else c)
   \<and> fst (snd (serviceUp q uf cb my c s))
     = (if serviceQueryFilter q s \<and> admitted_list (fst (serviceAddressFilter my c s)) \<noteq> []
           \<and> user_filter_passes uf
                (suggested_record s (admitted_list (fst (serviceAddressFilter my c s))))
        then [getSuggestedServiceSpec
                (suggested_record s (admitted_list (fst (serviceAddressFilter my c s))))]
        else [])
   \<and> (snd (snd (serviceUp q uf cb my c s)) = Escaped err
        \<longleftrightarrow> serviceQueryFilter q s
            \<and> (fst (serviceAddressFilter my c s) = Inl err
                \<or> admitted_list (fst (serviceAddressFilter my c s)) \<noteq> []
                  \<and> (\<exists>f. uf = Some f
                        \<and> f (suggested_record s
                               (admitted_list (fst (serviceAddressFilter my c s)))) = Inl err)))"
proof (cases "serviceQueryFilter q s")
  case False
  then show ?thesis by (simp add: serviceUp_def)
next
  case True
  obtain res c' where a: "serviceAddressFilter my c s = (res, c')"
    by (cases "serviceAddressFilter my c s")
  show ?thesis
  proof (cases res)
    case (Inl e)
    with True a show ?thesis by (auto simp: serviceUp_def admitted_list_def)
  next
    case (Inr addrs)
    with True a show ?thesis
      by (auto simp: serviceUp_def admitted_list_def Let_def user_filter_passes_def
               split: option.splits sum.splits bool.splits)
  qed
qed

text \<open>
  The claim C3 as it is stated fails: for a record that does not satisfy the query the
  handler never runs the admission pipeline. The cache stays without an entry for the
  record's name, where the pipeline, and the handler in the order of the specification,
  store the record's address.
\<close>

theorem query_filter_precedes_admission_counterexample:
  "\<not> serviceQueryFilter
       \<lparr>nameRegEx = None,
        rawQuery = \<lparr>q_type = ''_thermo._tcp'', q_port = Some 8080, q_properties = None\<rparr>,
        query_properties = None\<rparr>
       \<lparr>name = Some ''valve'', type = Some ''_thermo._tcp'', port = Some 9090,
        addresses = Some [''10.0.0.5''], properties = None\<rparr>
   \<and> fst (serviceUp
       \<lparr>nameRegEx = None,
        rawQuery = \<lparr>q_type = ''_thermo._tcp'', q_port = Some 8080, q_properties = None\<rparr>,
        query_properties = None\<rparr>
       None (\<lambda>spec. None) [] Map.empty
       \<lparr>name = Some ''valve'', type = Some ''_thermo._tcp'', port = Some 9090,
        addresses = Some [''10.0.0.5''], properties = None\<rparr>) ''valve'' = None
   \<and> snd (serviceAddressFilter [] Map.empty
       \<lparr>name = Some ''valve'', type = Some ''_thermo._tcp'', port = Some 9090,
        addresses = Some [''10.0.0.5''], properties = None\<rparr>) ''valve'' = Some [''10.0.0.5'']
   \<and> fst (serviceUp_as_specified
       \<lparr>nameRegEx = None,
        rawQuery = \<lparr>q_type = ''_thermo._tcp'', q_port = Some 8080, q_properties = None\<rparr>,
        query_properties = None\<rparr>
       None (\<lambda>spec. None) [] Map.empty
       \<lparr>name = Some ''valve'', type = Some ''_thermo._tcp'', port = Some 9090,
        addresses = Some [''10.0.0.5''], properties = None\<rparr>) ''valve'' = Some [''10.0.0.5'']"
  by (simp add: serviceUp_def serviceUp_as_specified_def query_eval admission_eval)

theorem query_filter_precedes_admission_witness:
  "serviceQueryFilter
       \<lparr>nameRegEx = None,
        rawQuery = \<lparr>q_type = ''_thermo._tcp'', q_port = Some 8080, q_properties = None\<rparr>,
        query_properties = None\<rparr>
       \<lparr>name = Some ''valve'', type = Some ''_thermo._tcp'', port = Some 8080,
        addresses = Some [''10.0.0.5''], properties = None\<rparr>
   \<and> fst (serviceUp
       \<lparr>nameRegEx = None,
        rawQuery = \<lparr>q_type = ''_thermo._tcp'', q_port = Some 8080, q_properties = None\<rparr>,
        query_properties = None\<rparr>
       None (\<lambda>spec. None) [''10.0.0.1''] Map.empty
       \<lparr>name = Some ''valve'', type = Some ''_thermo._tcp'', port = Some 8080,
        addresses = Some [''10.0.0.5''], properties = None\<rparr>) ''valve'' = Some [''10.0.0.5'']
   \<and> fst (snd (serviceUp
       \<lparr>nameRegEx = None,
        rawQuery = \<lparr>q_type = ''_thermo._tcp'', q_port = Some 8080, q_properties = None\<rparr>,
        query_properties = None\<rparr>
       None (\<lambda>spec. None) [''10.0.0.1''] Map.empty
       \<lparr>name = Some ''valve'', type = Some ''_thermo._tcp'', port = Some 8080,
        addresses = Some [''10.0.0.5''], properties = None\<rparr>))
     = [\<lparr>spec_name = Some ''valve'', spec_type = Some ''_thermo._tcp'', spec_port = Some 8080,
         spec_address = Some ''10.0.0.5'', spec_properties = None\<rparr>]"
proof -
  let ?q = "\<lparr>nameRegEx = None,
        rawQuery = \<lparr>q_type = ''_thermo._tcp'', q_port = Some 8080, q_properties = None\<rparr>,
        query_properties = None\<rparr>"
  let ?s = "\<lparr>name = Some ''valve'', type = Some ''_thermo._tcp'', port = Some 8080,
        addresses = Some [''10.0.0.5''], properties = None\<rparr>"
  have h1: "serviceQueryFilter ?q ?s" by (simp add: query_eval)
  have a: "serviceAddressFilter [''10.0.0.1''] Map.empty ?s
             = (Inr [''10.0.0.5''], [''valve'' \<mapsto> [''10.0.0.5'']])"
    by (simp add: admission_eval)
  show ?thesis
    using query_filter_precedes_admission
      [of ?q None "\<lambda>spec. None" "[''10.0.0.1'']" Map.empty ?s] h1 a
    by (simp add: record_eval)
qed

text \<open>
  C9. For an event whose record passes the query matcher, is admitted with a non-empty
  list and passes the user filter: if the callback throws, the handler still returns,
  with the cache of the admission pipeline, having called the callback once. It gives
  what it gives with a callback that never throws, and so does the run of the events
  that follow, which goes on from the cache the pipeline left.
\<close>

theorem callback_failure_swallowed:
  assumes "serviceQueryFilter q s"
    and "admitted_list (fst (serviceAddressFilter my c s)) \<noteq> []"
    and "user_filter_passes uf
           (suggested_record s (admitted_list (fst (serviceAddressFilter my c s))))"
    and "cb (getSuggestedServiceSpec
               (suggested_record s (admitted_list (fst (serviceAddressFilter my c s)))))
           = Some err"
  shows "serviceUp q uf cb my c s
           = (snd (serviceAddressFilter my c s),
              [getSuggestedServiceSpec
                 (suggested_record s (admitted_list (fst (serviceAddressFilter my c s))))],
              Returned)
         \<and> serviceUp q uf cb my c s = serviceUp q uf (\<lambda>spec. None) my c s
         \<and> deliver q uf cb my c (ServiceUp s # evs)
             = deliver q uf (\<lambda>spec. None) my c (ServiceUp s # evs)
         \<and> fst (deliver q uf cb my c (ServiceUp s # evs))
             = fst (deliver q uf cb my (snd (serviceAddressFilter my c s)) evs)"
proof -
  let ?spec = "getSuggestedServiceSpec
                 (suggested_record s (admitted_list (fst (serviceAddressFilter my c s))))"
  obtain res c' where a: "serviceAddressFilter my c s = (res, c')"
    by (cases "serviceAddressFilter my c s")
  with assms(2) obtain addrs where res: "res = Inr addrs" and ne: "addrs \<noteq> []"
    by (cases res) (auto simp: admitted_list_def)
  have up: "serviceUp q uf cb my c s = (snd (serviceAddressFilter my c s), [?spec], Returned)"
    using assms a res ne
    by (auto simp: serviceUp_def Let_def user_filter_passes_def admitted_list_def
             split: option.splits)
  have run: "fst (deliver q uf cb my c (ServiceUp s # evs))
               = fst (deliver q uf cb my (snd (serviceAddressFilter my c s)) evs)"
    using up by (simp split: prod.splits)
  show ?thesis
    using up run serviceUp_any_callback [of q uf cb my c s "\<lambda>spec. None"]
      deliver_any_callback [of q uf cb my c "ServiceUp s # evs" "\<lambda>spec. None"]
    by simp
qed

theorem callback_failure_swallowed_witness:
  "serviceQueryFilter
       \<lparr>nameRegEx = None,
        rawQuery = \<lparr>q_type = ''_thermo._tcp'', q_port = Some 8080, q_properties = None\<rparr>,
        query_properties = None\<rparr>
       \<lparr>name = Some ''valve'', type = Some ''_thermo._tcp'', port = Some 8080,
        addresses = Some [''10.0.0.5''], properties = None\<rparr>
   \<and> deliver
       \<lparr>nameRegEx = None,
        rawQuery = \<lparr>q_type = ''_thermo._tcp'', q_port = Some 8080, q_properties = None\<rparr>,
        query_properties = None\<rparr>
       None (\<lambda>spec. Some (Thrown ''consumer failed'')) [''10.0.0.1''] Map.empty
       [ServiceUp \<lparr>name = Some ''valve'', type = Some ''_thermo._tcp'', port = Some 8080,
                  addresses = Some [''10.0.0.5''], properties = None\<rparr>,
        ServiceUp \<lparr>name = Some ''pump'', type = Some ''_thermo._tcp'', port = Some 8080,
                  addresses = Some [''10.0.0.6''], properties = None\<rparr>]
     = ([''valve'' \<mapsto> [''10.0.0.5''], ''pump'' \<mapsto> [''10.0.0.6'']],
        [\<lparr>spec_name = Some ''valve'', spec_type = Some ''_thermo._tcp'', spec_port = Some 8080,
          spec_address = Some ''10.0.0.5'', spec_properties = None\<rparr>,
         \<lparr>spec_name = Some ''pump'', spec_type = Some ''_thermo._tcp'', spec_port = Some 8080,
          spec_address = Some ''10.0.0.6'', spec_properties = None\<rparr>],
        Returned)"
proof -
  let ?q = "\<lparr>nameRegEx = None,
        rawQuery = \<lparr>q_type = ''_thermo._tcp'', q_port = Some 8080, q_properties = None\<rparr>,
        query_properties = None\<rparr>"
  let ?s = "\<lparr>name = Some ''valve'', type = Some ''_thermo._tcp'', port = Some 8080,
        addresses = Some [''10.0.0.5''], properties = None\<rparr>"
  let ?s' = "\<lparr>name = Some ''pump'', type = Some ''_thermo._tcp'', port = Some 8080,
        addresses = Some [''10.0.0.6''], properties = None\<rparr>"
  let ?cb = "\<lambda>spec :: service_spec. Some (Thrown ''consumer failed'')"
  have h1: "serviceQueryFilter ?q ?s" by (simp add: query_eval)
  have a: "serviceAddressFilter [''10.0.0.1''] Map.empty ?s
             = (Inr [''10.0.0.5''], [''valve'' \<mapsto> [''10.0.0.5'']])"
    by (simp add: admission_eval)
  have h2: "admitted_list (fst (serviceAddressFilter [''10.0.0.1''] Map.empty ?s)) \<noteq> []"
    by (simp add: a admitted_list_def)
  have h3: "user_filter_passes None
              (suggested_record ?s
                 (admitted_list (fst (serviceAddressFilter [''10.0.0.1''] Map.empty ?s))))"
    by (simp add: user_filter_passes_def)
  have h4: "?cb (getSuggestedServiceSpec
              (suggested_record ?s
                 (admitted_list (fst (serviceAddressFilter [''10.0.0.1''] Map.empty ?s)))))
            = Some (Thrown ''consumer failed'')"
    by simp
  have quiet: "deliver ?q None (\<lambda>spec. None) [''10.0.0.1''] Map.empty [ServiceUp ?s, ServiceUp ?s']
     = ([''valve'' \<mapsto> [''10.0.0.5''], ''pump'' \<mapsto> [''10.0.0.6'']],
        [\<lparr>spec_name = Some ''valve'', spec_type = Some ''_thermo._tcp'', spec_port = Some 8080,
          spec_address = Some ''10.0.0.5'', spec_properties = None\<rparr>,
         \<lparr>spec_name = Some ''pump'', spec_type = Some ''_thermo._tcp'', spec_port = Some 8080,
          spec_address = Some ''10.0.0.6'', spec_properties = None\<rparr>],
        Returned)"
    by (simp add: serviceUp_def query_eval admission_eval record_eval)
  have same: "deliver ?q None ?cb [''10.0.0.1''] Map.empty [ServiceUp ?s, ServiceUp ?s']
     = deliver ?q None (\<lambda>spec. None) [''10.0.0.1''] Map.empty [ServiceUp ?s, ServiceUp ?s']"
    using callback_failure_swallowed [OF h1 h2 h3 h4, of "[ServiceUp ?s']"] by blast
  from h1 same [unfolded quiet] show ?thesis by (rule conjI)
qed

text \<open>
  C10. For an event whose record does not satisfy the query, the handler returns without
  touching the cache and without calling the callback, and the events that follow are
  handled as if the event had not occurred: the addresses of the record still count as
  new on a later event that matches.
\<close>

theorem unmatched_record_leaves_cache:
  assumes "\<not> serviceQueryFilter q s"
  shows "serviceUp q uf cb my c s = (c, [], Returned)
         \<and> deliver q uf cb my c (ServiceUp s # evs) = deliver q uf cb my c evs"
proof -
  have up: "serviceUp q uf cb my c s = (c, [], Returned)"
    using assms by (simp add: serviceUp_def)
  then show ?thesis by (simp split: prod.splits)
qed

theorem unmatched_record_leaves_cache_witness:
  "\<not> serviceQueryFilter
       \<lparr>nameRegEx = None,
        rawQuery = \<lparr>q_type = ''_thermo._tcp'', q_port = Some 8080, q_properties = None\<rparr>,
        query_properties = None\<rparr>
       \<lparr>name = Some ''valve'', type = Some ''_thermo._tcp'', port = Some 9090,
        addresses = Some [''10.0.0.5''], properties = None\<rparr>
   \<and> serviceUp
       \<lparr>nameRegEx = None,
        rawQuery = \<lparr>q_type = ''_thermo._tcp'', q_port = Some 8080, q_properties = None\<rparr>,
        query_properties = None\<rparr>
       None (\<lambda>spec. None) [''10.0.0.1''] Map.empty
       \<lparr>name = Some ''valve'', type = Some ''_thermo._tcp'', port = Some 9090,
        addresses = Some [''10.0.0.5''], properties = None\<rparr> = (Map.empty, [], Returned)
   \<and> fst (snd (deliver
       \<lparr>nameRegEx = None,
        rawQuery = \<lparr>q_type = ''_thermo._tcp'', q_port = Some 8080, q_properties = None\<rparr>,
        query_properties = None\<rparr>
       None (\<lambda>spec. None) [''10.0.0.1''] Map.empty
       [ServiceUp \<lparr>name = Some ''valve'', type = Some ''_thermo._tcp'', port = Some 9090,
                  addresses = Some [''10.0.0.5''], properties = None\<rparr>,
        ServiceUp \<lparr>name = Some ''valve'', type = Some ''_thermo._tcp'', port = Some 8080,
                  addresses = Some [''10.0.0.5''], properties = None\<rparr>]))
     = [\<lparr>spec_name = Some ''valve'', spec_type = Some ''_thermo._tcp'', spec_port = Some 8080,
         spec_address = Some ''10.0.0.5'', spec_properties = None\<rparr>]"
proof -
  let ?q = "\<lparr>nameRegEx = None,
        rawQuery = \<lparr>q_type = ''_thermo._tcp'', q_port = Some 8080, q_properties = None\<rparr>,
        query_properties = None\<rparr>"
  let ?s = "\<lparr>name = Some ''valve'', type = Some ''_thermo._tcp'', port = Some 9090,
        addresses = Some [''10.0.0.5''], properties = None\<rparr>"
  let ?s' = "\<lparr>name = Some ''valve'', type = Some ''_thermo._tcp'', port = Some 8080,
        addresses = Some [''10.0.0.5''], properties = None\<rparr>"
  have h: "\<not> serviceQueryFilter ?q ?s" by (simp add: query_eval)
  have later: "fst (snd (deliver ?q None (\<lambda>spec. None) [''10.0.0.1''] Map.empty [ServiceUp ?s']))
     = [\<lparr>spec_name = Some ''valve'', spec_type = Some ''_thermo._tcp'', spec_port = Some 8080,
         spec_address = Some ''10.0.0.5'', spec_properties = None\<rparr>]"
    by (simp add: serviceUp_def query_eval admission_eval record_eval)
  show ?thesis
    using unmatched_record_leaves_cache
      [OF h, of None "\<lambda>spec. None" "[''10.0.0.1'']" Map.empty "[ServiceUp ?s']"] h later
    by simp
qed

section \<open>Starting discovery\<close>

text \<open>
  C8, as the code has it. For an argument that has a constructor, \<^verbatim>\<open>discoverServices\<close>
  fails with the invalid-argument error exactly when the constructor is not named
  \<^verbatim>\<open>ServiceQuery\<close>, and it does not fail this way when the argument is a recognised query
  object, whatever the engine does afterwards. Every argument that is not a recognised
  query object makes the call fail at once; for \<^verbatim>\<open>undefined\<close>, \<^verbatim>\<open>null\<close> and a value
  without a constructor the error is the \<^verbatim>\<open>TypeError\<close> that the test of line 101 itself
  throws.
\<close>

theorem discoverServices_argument_check:
  "(discoverServices mdns serviceQuery userServiceFilter callback = Inl InvalidArgument
      \<longleftrightarrow> (\<exists>cn q. serviceQuery = Object (Some cn) q \<and> cn \<noteq> ''ServiceQuery''))
   \<and> (is_ServiceQuery serviceQuery
      \<longrightarrow> discoverServices mdns serviceQuery userServiceFilter callback \<noteq> Inl InvalidArgument)
   \<and> (\<not> is_ServiceQuery serviceQuery
      \<longrightarrow> (\<exists>e. discoverServices mdns serviceQuery userServiceFilter callback = Inl e))
   \<and> (serviceQuery = Undefined \<or> serviceQuery = Null \<or> (\<exists>q. serviceQuery = Object None q)
      \<longrightarrow> discoverServices mdns serviceQuery userServiceFilter callback = Inl TypeError)"
  by (cases serviceQuery)
     (auto simp: discoverServices_def is_ServiceQuery_def split: option.splits)

text \<open>
  The claim C8 as it is stated fails: \<^verbatim>\<open>undefined\<close> is not a recognised query object,
  and the call fails with a \<^verbatim>\<open>TypeError\<close>, not with the invalid-argument error.
\<close>

theorem discoverServices_argument_check_counterexample:
  "\<not> is_ServiceQuery Undefined
   \<and> discoverServices \<lparr>createBrowser = (\<lambda>t. None), start = None\<rparr> Undefined None (\<lambda>spec. None)
       = Inl TypeError
   \<and> discoverServices \<lparr>createBrowser = (\<lambda>t. None), start = None\<rparr> Undefined None (\<lambda>spec. None)
       \<noteq> Inl InvalidArgument"
  by (simp add: discoverServices_def is_ServiceQuery_def)

theorem discoverServices_argument_check_witness:
  "\<not> is_ServiceQuery (Object (Some ''Object'') None)
   \<and> discoverServices \<lparr>createBrowser = (\<lambda>t. None), start = None\<rparr>
         (Object (Some ''Object'') None) None (\<lambda>spec. None) = Inl InvalidArgument
   \<and> is_ServiceQuery (Object (Some ''ServiceQuery'')
         (Some \<lparr>nameRegEx = None,
                rawQuery = \<lparr>q_type = ''_thermo._tcp'', q_port = None, q_properties = None\<rparr>,
                query_properties = None\<rparr>))
   \<and> discoverServices \<lparr>createBrowser = (\<lambda>t. Some ''bad service type''), start = None\<rparr>
         (Object (Some ''ServiceQuery'')
           (Some \<lparr>nameRegEx = None,
                  rawQuery = \<lparr>q_type = ''_thermo._tcp'', q_port = None, q_properties = None\<rparr>,
                  query_properties = None\<rparr>)) None (\<lambda>spec. None) \<noteq> Inl InvalidArgument
   \<and> discoverServices \<lparr>createBrowser = (\<lambda>t. None), start = None\<rparr> Null None (\<lambda>spec. None)
       = Inl TypeError"
proof -
  let ?q = "\<lparr>nameRegEx = None,
        rawQuery = \<lparr>q_type = ''_thermo._tcp'', q_port = None, q_properties = None\<rparr>,
        query_properties = None\<rparr>"
  let ?ok = "\<lparr>createBrowser = (\<lambda>t :: string. None :: string option), start = None\<rparr>"
  let ?bad = "\<lparr>createBrowser = (\<lambda>t :: string. Some ''bad service type''), start = None\<rparr>"
  have h1: "\<exists>cn q. Object (Some ''Object'') None = Object (Some cn) q \<and> cn \<noteq> ''ServiceQuery''"
    by simp
  have h2: "is_ServiceQuery (Object (Some ''ServiceQuery'') (Some ?q))"
    by (simp add: is_ServiceQuery_def)
  have h3: "\<not> is_ServiceQuery (Object (Some ''Object'') None)"
    by (simp add: is_ServiceQuery_def)
  have c1: "discoverServices ?ok (Object (Some ''Object'') None) None (\<lambda>spec. None)
              = Inl InvalidArgument"
    using discoverServices_argument_check
      [of ?ok "Object (Some ''Object'') None" None "\<lambda>spec. None"] h1 by blast
  have c2: "discoverServices ?bad (Object (Some ''ServiceQuery'') (Some ?q)) None (\<lambda>spec. None)
              \<noteq> Inl InvalidArgument"
    using discoverServices_argument_check
      [of ?bad "Object (Some ''ServiceQuery'') (Some ?q)" None "\<lambda>spec. None"] h2 by blast
  have c3: "discoverServices ?ok Null None (\<lambda>spec. None) = Inl TypeError"
    using discoverServices_argument_check [of ?ok Null None "\<lambda>spec. None"] by blast
  from h3 c1 h2 c2 c3 show ?thesis by blast
qed

end
